theory Spec2Isabelle
  imports Complex_Main
begin

section \<open>Problem 4: three ways to sum to n\<close>

text \<open>
  A JavaScript \<open>number\<close>: a finite value or one of the three special values. Finite
  values are kept exact (rationals); every theorem below about finite results is
  restricted to integers whose intermediate values stay below \<open>2 ^ 53\<close>, where IEEE
  doubles are exact as well.
\<close>

datatype number = Num rat | NaN | PosInfinity | NegInfinity

text \<open>\<open>Number.isInteger(n)\<close>: false for \<open>NaN\<close>, the infinities and fractions.\<close>

fun Number_isInteger :: "number \<Rightarrow> bool" where
  "Number_isInteger (Num r) = (of_int \<lfloor>r\<rfloor> = r)"
| "Number_isInteger NaN = False"
| "Number_isInteger PosInfinity = False"
| "Number_isInteger NegInfinity = False"

text \<open>\<open>a < b\<close> and \<open>a > b\<close> on numbers with a finite right-hand side.\<close>

fun less_number :: "number \<Rightarrow> rat \<Rightarrow> bool" where
  "less_number (Num r) c = (r < c)"
| "less_number NaN c = False"
| "less_number PosInfinity c = False"
| "less_number NegInfinity c = True"

fun greater_number :: "number \<Rightarrow> rat \<Rightarrow> bool" where
  "greater_number (Num r) c = (r > c)"
| "greater_number NaN c = False"
| "greater_number PosInfinity c = True"
| "greater_number NegInfinity c = False"

text \<open>\<open>a + b\<close> on numbers (IEEE rules for the special values).\<close>

fun add_number :: "number \<Rightarrow> number \<Rightarrow> number" where
  "add_number (Num a) (Num b) = Num (a + b)"
| "add_number NaN _ = NaN"
| "add_number _ NaN = NaN"
| "add_number PosInfinity NegInfinity = NaN"
| "add_number NegInfinity PosInfinity = NaN"
| "add_number PosInfinity _ = PosInfinity"
| "add_number _ PosInfinity = PosInfinity"
| "add_number NegInfinity _ = NegInfinity"
| "add_number _ NegInfinity = NegInfinity"

text \<open>
  The two \<open>throw new Error(...)\<close> of \<open>validateInput\<close> (the second message interpolates
  the input and the context, which the error value carries), and the
  \<open>RangeError: Maximum call stack size exceeded\<close> that the engine throws when a call finds
  the call stack full.
\<close>

datatype sum_error =
    NotNonNegativeInteger
  | TooLarge number "string option"
  | RangeError

definition Number_MAX_SAFE_INTEGER :: int where
  "Number_MAX_SAFE_INTEGER = 2 ^ 53 - 1"

definition MAX_SAFE_FORMULA_INPUT :: int where
  "MAX_SAFE_FORMULA_INPUT = \<lfloor>sqrt (real_of_int (Number_MAX_SAFE_INTEGER * 2))\<rfloor>"

definition MAX_SAFE_RECURSIVE_INPUT :: int where
  "MAX_SAFE_RECURSIVE_INPUT = 10000"

definition validateInput :: "number \<Rightarrow> int option \<Rightarrow> string option \<Rightarrow> sum_error + unit" where
  "validateInput n maxValue context =
     (if \<not> Number_isInteger n \<or> less_number n 0 then Inl NotNonNegativeInteger
      else case maxValue of
             None \<Rightarrow> Inr ()
           | Some m \<Rightarrow> if greater_number n (of_int m) then Inl (TooLarge n context) else Inr ())"

text \<open>The \<open>for (let i = 1; i <= n; i++) sum += i\<close> loop of \<open>sum_to_n_a\<close>.\<close>

function for_loop_a :: "rat \<Rightarrow> rat \<Rightarrow> rat \<Rightarrow> rat" where
  "for_loop_a n i s = (if i \<le> n then for_loop_a n (i + 1) (s + i) else s)"
  by pat_completeness auto
termination
proof (relation "measure (\<lambda>(n, i, s). nat (\<lfloor>n - i\<rfloor> + 1))")
  show "wf (measure (\<lambda>(n, i, s). nat (\<lfloor>n - i\<rfloor> + 1)))" by simp
next
  fix n i s :: rat
  assume le: "i \<le> n"
  have "n - (i + 1) = (n - i) - 1" by simp
  then have "\<lfloor>n - (i + 1)\<rfloor> = \<lfloor>n - i\<rfloor> - 1" by (simp only: floor_diff_one)
  moreover have "0 \<le> \<lfloor>n - i\<rfloor>" using le by simp
  ultimately show "((n, i + 1, s + i), (n, i, s)) \<in> measure (\<lambda>(n, i, s). nat (\<lfloor>n - i\<rfloor> + 1))"
    by simp
qed

declare for_loop_a.simps [simp del]

text \<open>
  In the three functions the branch for a special value after a successful validation is
  dead code of the model: \<open>validateInput\<close> passes finite values only
  (lemma \<open>validateInput_Inr_finite\<close>). The loop and the formula make no nested calls
  beyond \<open>validateInput\<close>, so they carry no stack.
\<close>

definition sum_to_n_a :: "number \<Rightarrow> sum_error + number" where
  "sum_to_n_a n =
     (case validateInput n None None of
        Inl e \<Rightarrow> Inl e
      | Inr _ \<Rightarrow>
          (case n of
             Num r \<Rightarrow> if r = 0 then Inr (Num 0) else Inr (Num (for_loop_a r 1 0))
           | _ \<Rightarrow> Inl NotNonNegativeInteger))"

definition sum_to_n_b :: "number \<Rightarrow> sum_error + number" where
  "sum_to_n_b n =
     (case validateInput n (Some MAX_SAFE_FORMULA_INPUT) (Some ''formula'') of
        Inl e \<Rightarrow> Inl e
      | Inr _ \<Rightarrow>
          (case n of
             Num r \<Rightarrow> if r = 0 then Inr (Num 0) else Inr (Num ((r * (r + 1)) / 2))
           | _ \<Rightarrow> Inl NotNonNegativeInteger))"

text \<open>
  \<open>sum_to_n_c\<close> is not tail recursive: every pending addition \<open>n + sum_to_n_c(n - 1)\<close>
  keeps its activation on the call stack. The model carries the room left on the stack:
  \<open>sum_to_n_c frames n\<close> is the call made when the stack can take \<open>frames\<close> more
  activations of \<open>sum_to_n_c\<close>; a call that finds no room throws \<open>RangeError\<close>. The
  capacity belongs to the engine; for V8 (Chrome, Node.js) the comment on
  \<open>MAX_SAFE_RECURSIVE_INPUT\<close> in \<open>utils/index.ts\<close> records about 8,874 calls.
\<close>

definition V8_CALL_STACK_CALLS :: nat where
  "V8_CALL_STACK_CALLS = 8874"

fun sum_to_n_c :: "nat \<Rightarrow> number \<Rightarrow> sum_error + number" where
  "sum_to_n_c 0 n = Inl RangeError"
| "sum_to_n_c (Suc frames) n =
     (case validateInput n (Some MAX_SAFE_RECURSIVE_INPUT) (Some ''recursive'') of
        Inl e \<Rightarrow> Inl e
      | Inr _ \<Rightarrow>
          (case n of
             Num r \<Rightarrow>
               if r = 0 \<or> r = 1 then Inr n
               else (case sum_to_n_c frames (Num (r - 1)) of
                       Inl e \<Rightarrow> Inl e
                     | Inr s \<Rightarrow> Inr (add_number n s))
           | _ \<Rightarrow> Inl NotNonNegativeInteger))"

section \<open>Problem 5: roles, errors and the middleware of the news routes\<close>

subsection \<open>\<open>constants/roles.ts\<close>\<close>

datatype UserRole = ADMIN | EDITOR | VIEWER

text \<open>The string values of \<open>USER_ROLES\<close>.\<close>

fun role_string :: "UserRole \<Rightarrow> string" where
  "role_string ADMIN = ''admin''"
| "role_string EDITOR = ''editor''"
| "role_string VIEWER = ''viewer''"

definition ALL_ROLES :: "UserRole list" where
  "ALL_ROLES = [ADMIN, EDITOR, VIEWER]"

definition DEFAULT_ROLE :: UserRole where
  "DEFAULT_ROLE = VIEWER"

fun ROLE_PERMISSIONS :: "UserRole \<Rightarrow> string list" where
  "ROLE_PERMISSIONS ADMIN = [''create'', ''read'', ''update'', ''delete'', ''manage_users'']"
| "ROLE_PERMISSIONS EDITOR = [''create'', ''read'', ''update'', ''delete'']"
| "ROLE_PERMISSIONS VIEWER = [''read'']"

definition getRolePermissions :: "UserRole \<Rightarrow> string list" where
  "getRolePermissions r = ROLE_PERMISSIONS r"

definition hasPermission :: "UserRole \<Rightarrow> string \<Rightarrow> bool" where
  "hasPermission r permission = (permission \<in> set (ROLE_PERMISSIONS r))"

subsection \<open>JSON bodies and responses\<close>

datatype json = JBool bool | JStr string | JArr "json list" | JObj "(string \<times> json) list"

text \<open>\<open>res.status(s).json(b)\<close>: the status and the fields of the body, in order.\<close>

record response =
  status :: nat
  body :: "(string \<times> json) list"

subsection \<open>\<open>middleware/errorHandler.ts\<close>\<close>

text \<open>\<open>(err as any).code\<close>: absent, a number or a string.\<close>

datatype err_code = NoCode | NumCode int | StrCode string

text \<open>
  The objects the error handler receives. \<open>AppError message statusCode stack\<close> is an
  instance of the class \<open>AppError\<close>; \<open>Error name message stack code\<close> is any other
  error object. The last argument of \<open>AppError\<close> is what \<open>Error.captureStackTrace\<close>
  recorded.
\<close>

datatype js_error =
    AppError string nat string
  | Error string string string err_code

fun err_message :: "js_error \<Rightarrow> string" where
  "err_message (AppError msg sc stk) = msg"
| "err_message (Error nm msg stk cd) = msg"

fun err_stack :: "js_error \<Rightarrow> string" where
  "err_stack (AppError msg sc stk) = stk"
| "err_stack (Error nm msg stk cd) = stk"

text \<open>
  What the middleware reads from the process: \<open>process.env.NODE_ENV\<close>, the outcome of
  \<open>jwt.verify(token, JWT_SECRET)\<close> of the jsonwebtoken library (which throws one of three
  errors or returns the payload), and the stack trace captured when an \<open>AppError\<close> is
  constructed.
\<close>

datatype jwt_error = TokenExpiredError | JsonWebTokenError | NotBeforeError

record jwt_payload =
  payload_id :: string
  payload_email :: string
  payload_role :: UserRole

record env =
  NODE_ENV :: "string option"
  jwt_verify :: "string \<Rightarrow> jwt_error + jwt_payload"
  captureStackTrace :: string

fun errorHandler :: "env \<Rightarrow> js_error \<Rightarrow> response" where
  "errorHandler e (AppError msg sc stk) =
     \<lparr>status = sc, body = [(''success'', JBool False), (''message'', JStr msg)]\<rparr>"
| "errorHandler e (Error nm msg stk cd) =
     (if nm = ''ValidationError'' then
        \<lparr>status = 400,
         body = [(''success'', JBool False), (''message'', JStr ''Validation error''),
                 (''errors'', JStr msg)]\<rparr>
      else if nm = ''CastError'' then
        \<lparr>status = 400,
         body = [(''success'', JBool False), (''message'', JStr ''Invalid ID format'')]\<rparr>
      else if nm = ''MongoError'' \<and> cd = NumCode 11000 then
        \<lparr>status = 409,
         body = [(''success'', JBool False), (''message'', JStr ''Duplicate entry found'')]\<rparr>
      else
        \<lparr>status = 500,
         body = [(''success'', JBool False), (''message'', JStr ''Internal server error'')]
                @ (if NODE_ENV e = Some ''development'' then [(''error'', JStr msg)] else [])\<rparr>)"

subsection \<open>Requests and the database\<close>

text \<open>\<open>req.user\<close> as \<open>authenticate\<close> attaches it.\<close>

record req_user =
  user_id :: string
  email :: string
  role :: UserRole

text \<open>
  The parts of an Express request the delete route reads: the \<open>Authorization\<close> header,
  \<open>req.originalUrl\<close>, \<open>req.params.id\<close>, \<open>req.user\<close> and the errors express-validator
  has recorded on the request (path and message).
\<close>

record request =
  authorization :: "string option"
  originalUrl :: string
  params_id :: string
  user :: "req_user option"
  validation :: "(string \<times> string) list"

record user_doc =
  isActive :: bool

record news_doc =
  title :: string
  content :: string
  author :: string

text \<open>
  \<open>User.findById\<close> resolves to a document or \<open>null\<close>, or rejects with an error; the
  news collection is a map from ids to documents.
\<close>

record db =
  User_findById :: "string \<Rightarrow> js_error + user_doc option"
  news :: "string \<rightharpoonup> news_doc"

text \<open>A middleware calls \<open>next()\<close>, calls \<open>next(err)\<close> or sends the response.\<close>

datatype outcome = Next request | NextError js_error | Sent response

fun notFoundHandler :: "request \<Rightarrow> response" where
  "notFoundHandler req =
     \<lparr>status = 404,
      body = [(''success'', JBool False),
              (''message'', JStr (''Route '' @ originalUrl req @ '' not found''))]\<rparr>"

subsection \<open>\<open>middleware/auth.ts\<close>\<close>

definition startsWith :: "string \<Rightarrow> string \<Rightarrow> bool" where
  "startsWith s p = (take (length p) s = p)"

text \<open>\<open>s.split(c)\<close> for a one-character separator.\<close>

fun split :: "char \<Rightarrow> string \<Rightarrow> string list" where
  "split c [] = [[]]"
| "split c (x # xs) =
     (if x = c then [] # split c xs
      else (case split c xs of [] \<Rightarrow> [[x]] | p # ps \<Rightarrow> (x # p) # ps))"

text \<open>\<open>xs[i]\<close>: \<open>undefined\<close> (here \<open>None\<close>) out of range.\<close>

fun index :: "'a list \<Rightarrow> nat \<Rightarrow> 'a option" where
  "index [] i = None"
| "index (x # xs) 0 = Some x"
| "index (x # xs) (Suc i) = index xs i"

text \<open>
  \<open>verifyToken\<close>: the payload, or \<open>null\<close> whatever \<open>jwt.verify\<close> threw. An \<open>undefined\<close>
  token makes \<open>jwt.verify\<close> throw.
\<close>

definition verifyToken :: "env \<Rightarrow> string option \<Rightarrow> jwt_payload option" where
  "verifyToken e token =
     (case token of
        None \<Rightarrow> None
      | Some t \<Rightarrow> (case jwt_verify e t of Inl err \<Rightarrow> None | Inr decoded \<Rightarrow> Some decoded))"

definition authenticate :: "env \<Rightarrow> db \<Rightarrow> request \<Rightarrow> outcome" where
  "authenticate e d req =
     (case authorization req of
        None \<Rightarrow>
          NextError (AppError ''Authentication required. Please provide a valid token.'' 401
                       (captureStackTrace e))
      | Some authHeader \<Rightarrow>
          if authHeader = [] \<or> \<not> startsWith authHeader ''Bearer '' then
            NextError (AppError ''Authentication required. Please provide a valid token.'' 401
                         (captureStackTrace e))
          else
            (case verifyToken e (index (split CHR '' '' authHeader) 1) of
               None \<Rightarrow> NextError (AppError ''Invalid or expired token.'' 401 (captureStackTrace e))
             | Some decoded \<Rightarrow>
                 (case User_findById d (payload_id decoded) of
                    Inl err \<Rightarrow> NextError err
                  | Inr None \<Rightarrow>
                      NextError (AppError ''User no longer exists or is inactive.'' 401
                                   (captureStackTrace e))
                  | Inr (Some u) \<Rightarrow>
                      if \<not> isActive u then
                        NextError (AppError ''User no longer exists or is inactive.'' 401
                                     (captureStackTrace e))
                      else
                        Next (req\<lparr>user := Some \<lparr>user_id = payload_id decoded,
                                                 email = payload_email decoded,
                                                 role = payload_role decoded\<rparr>\<rparr>))))"

text \<open>\<open>roles.join(', ')\<close>.\<close>

fun join_roles :: "UserRole list \<Rightarrow> string" where
  "join_roles [] = []"
| "join_roles [r] = role_string r"
| "join_roles (r # rs) = role_string r @ '', '' @ join_roles rs"

definition authorize :: "env \<Rightarrow> UserRole list \<Rightarrow> request \<Rightarrow> outcome" where
  "authorize e roles req =
     (case user req of
        None \<Rightarrow> NextError (AppError ''Authentication required.'' 401 (captureStackTrace e))
      | Some u \<Rightarrow>
          if role u \<notin> set roles then
            NextError (AppError (''Access denied. Required role(s): '' @ join_roles roles
                                 @ ''. Your role: '' @ role_string (role u)) 403
                         (captureStackTrace e))
          else Next req)"

subsection \<open>\<open>middleware/validation.ts\<close>\<close>

text \<open>
  \<open>isMongoId\<close> of express-validator (validator.js): a string of length 24 that
  \<open>isHexadecimal\<close> accepts, that is hexadecimal digits after an optional prefix \<open>0x\<close> or
  \<open>0h\<close> (in either case).
\<close>

definition hex_digits :: "string \<Rightarrow> bool" where
  "hex_digits s = (s \<noteq> [] \<and> set s \<subseteq> set ''0123456789abcdefABCDEF'')"

definition isHexadecimal :: "string \<Rightarrow> bool" where
  "isHexadecimal s =
     (hex_digits s
      \<or> (take 2 s \<in> set [''0x'', ''0X'', ''0h'', ''0H''] \<and> hex_digits (drop 2 s)))"

definition isMongoId :: "string \<Rightarrow> bool" where
  "isMongoId s = (isHexadecimal s \<and> length s = 24)"

definition idParamValidation :: "request \<Rightarrow> outcome" where
  "idParamValidation req =
     Next (req\<lparr>validation :=
             validation req
             @ (if isMongoId (params_id req) then [] else [(''id'', ''Invalid news ID format'')])\<rparr>)"

definition handleValidationErrors :: "request \<Rightarrow> outcome" where
  "handleValidationErrors req =
     (if validation req \<noteq> [] then
        Sent \<lparr>status = 400,
              body = [(''success'', JBool False), (''message'', JStr ''Validation failed''),
                      (''errors'',
                       JArr (map (\<lambda>(path, msg). JObj [(''field'', JStr path), (''message'', JStr msg)])
                               (validation req)))]\<rparr>
      else Next req)"

subsection \<open>\<open>controllers/newsController.ts\<close> and the delete route\<close>

text \<open>\<open>deleteNews\<close>: \<open>News.findByIdAndDelete(id)\<close>, then 200, or 404 through \<open>next\<close>.\<close>

definition deleteNews :: "env \<Rightarrow> db \<Rightarrow> request \<Rightarrow> outcome \<times> db" where
  "deleteNews e d req =
     (case news d (params_id req) of
        None \<Rightarrow> (NextError (AppError ''News not found'' 404 (captureStackTrace e)), d)
      | Some n \<Rightarrow>
          (Sent \<lparr>status = 200,
                 body = [(''success'', JBool True), (''message'', JStr ''News deleted successfully'')]\<rparr>,
           d\<lparr>news := (news d)(params_id req := None)\<rparr>))"

text \<open>
  Express runs the handlers of a route in order: \<open>next()\<close> moves on, \<open>next(err)\<close> goes to
  the error handler, a sent response ends the request. After the last handler of the
  application comes \<open>notFoundHandler\<close>.
\<close>

fun run_chain :: "env \<Rightarrow> (db \<Rightarrow> request \<Rightarrow> outcome \<times> db) list \<Rightarrow> db \<Rightarrow> request \<Rightarrow> response \<times> db" where
  "run_chain e [] d req = (notFoundHandler req, d)"
| "run_chain e (m # ms) d req =
     (case m d req of
        (Next req', d') \<Rightarrow> run_chain e ms d' req'
      | (NextError err, d') \<Rightarrow> (errorHandler e err, d')
      | (Sent r, d') \<Rightarrow> (r, d'))"

text \<open>
  \<open>router.delete('/:id', authenticate, authorize(USER_ROLES.ADMIN), idParamValidation,
  handleValidationErrors, newsController.deleteNews)\<close>.
\<close>

definition router_delete :: "env \<Rightarrow> db \<Rightarrow> request \<Rightarrow> response \<times> db" where
  "router_delete e =
     run_chain e
       [\<lambda>d req. (authenticate e d req, d),
        \<lambda>d req. (authorize e [ADMIN] req, d),
        \<lambda>d req. (idParamValidation req, d),
        \<lambda>d req. (handleValidationErrors req, d),
        deleteNews e]"

subsection \<open>\<open>app.ts\<close>: the rate limiter mounted on \<open>/api/\<close>\<close>





text \<open>A verifier and an environment for the examples: one expired and one valid token.\<close>

definition example_jwt_verify :: "string \<Rightarrow> jwt_error + jwt_payload" where
  "example_jwt_verify t =
     (if t = ''expired.jwt'' then Inl TokenExpiredError
      else if t = ''editor.jwt'' then
        Inr \<lparr>payload_id = ''u1'', payload_email = ''ed@example.com'', payload_role = EDITOR\<rparr>
      else Inl JsonWebTokenError)"

definition example_env :: "string option \<Rightarrow> env" where
  "example_env node_env =
     \<lparr>NODE_ENV = node_env, jwt_verify = example_jwt_verify,
      captureStackTrace = ''Error at authenticate (auth.ts)''\<rparr>"

definition example_db :: db where
  "example_db =
     \<lparr>User_findById = (\<lambda>i. if i = ''u1'' then Inr (Some \<lparr>isActive = True\<rparr>) else Inr None),
      news = [''507f1f77bcf86cd799439011'' \<mapsto>
                \<lparr>title = ''Hello'', content = ''First article'', author = ''ed''\<rparr>]\<rparr>"

definition example_request :: "string \<Rightarrow> request" where
  "example_request header =
     \<lparr>authorization = Some header, originalUrl = ''/api/news/507f1f77bcf86cd799439011'',
      params_id = ''507f1f77bcf86cd799439011'', user = None, validation = []\<rparr>"

section \<open>Problem 6: zero-trust score calculation (\<open>processAction\<close>)\<close>

text \<open>
  The values a client can put into the JSON object \<open>metadata\<close>, and an object as the map
  from its property names to their values; reading a missing property gives
  \<open>undefined\<close>.
\<close>

datatype jsval = VUndefined | VNull | VBool bool | VNum number | VStr string

type_synonym object = "string \<rightharpoonup> jsval"

definition property :: "object \<Rightarrow> string \<Rightarrow> jsval" where
  "property obj k = (case obj k of None \<Rightarrow> VUndefined | Some v \<Rightarrow> v)"

text \<open>\<open>a * b\<close> on numbers (IEEE rules for the special values; finite products exact).\<close>

fun mul_number :: "number \<Rightarrow> number \<Rightarrow> number" where
  "mul_number (Num a) (Num b) = Num (a * b)"
| "mul_number NaN _ = NaN"
| "mul_number _ NaN = NaN"
| "mul_number PosInfinity (Num b) = (if b = 0 then NaN else if 0 < b then PosInfinity else NegInfinity)"
| "mul_number NegInfinity (Num b) = (if b = 0 then NaN else if 0 < b then NegInfinity else PosInfinity)"
| "mul_number (Num a) PosInfinity = (if a = 0 then NaN else if 0 < a then PosInfinity else NegInfinity)"
| "mul_number (Num a) NegInfinity = (if a = 0 then NaN else if 0 < a then NegInfinity else PosInfinity)"
| "mul_number PosInfinity PosInfinity = PosInfinity"
| "mul_number NegInfinity NegInfinity = PosInfinity"
| "mul_number PosInfinity NegInfinity = NegInfinity"
| "mul_number NegInfinity PosInfinity = NegInfinity"

record task =
  task_userId :: string
  completed :: bool

text \<open>
  What \<open>processAction\<close> uses and the document does not define: the lookups \<open>getTask\<close> and
  \<open>getUserLevel\<close> into the server's state, the configuration tables \<open>SCORE_TABLE\<close> and
  \<open>LEVEL_MULTIPLIERS\<close>, the write \<open>updateUserScore\<close>, and the conversion of a string to
  a number that the comparison \<open>metadata.completionTime < 60\<close> applies to a string operand.
\<close>

record 'st server =
  getTask :: "'st \<Rightarrow> jsval \<Rightarrow> task option"
  getUserLevel :: "'st \<Rightarrow> string \<Rightarrow> string"
  SCORE_TABLE :: "string \<rightharpoonup> number"
  LEVEL_MULTIPLIERS :: "string \<rightharpoonup> number"
  updateUserScore :: "string \<Rightarrow> number \<Rightarrow> 'st \<Rightarrow> 'st"
  StringToNumber :: "string \<Rightarrow> number"

text \<open>The operand conversion of \<open><\<close> and \<open>*\<close>.\<close>

fun ToNumber :: "'st server \<Rightarrow> jsval \<Rightarrow> number" where
  "ToNumber srv VUndefined = NaN"
| "ToNumber srv VNull = Num 0"
| "ToNumber srv (VBool b) = (if b then Num 1 else Num 0)"
| "ToNumber srv (VNum n) = n"
| "ToNumber srv (VStr s) = StringToNumber srv s"

text \<open>A table entry that is missing is \<open>undefined\<close>, which the multiplication turns into \<open>NaN\<close>.\<close>

definition table_entry :: "(string \<rightharpoonup> number) \<Rightarrow> string \<Rightarrow> number" where
  "table_entry tbl k = (case tbl k of None \<Rightarrow> NaN | Some v \<Rightarrow> v)"

datatype action_error = TASK_NOT_FOUND | UNAUTHORIZED | ALREADY_COMPLETED

text \<open>
  \<open>processAction(userId, actionType, metadata)\<close>: the thrown string, or the points awarded
  together with the state after \<open>updateUserScore\<close>.
\<close>

definition processAction ::
  "'st server \<Rightarrow> 'st \<Rightarrow> string \<Rightarrow> string \<Rightarrow> object \<Rightarrow> action_error + (number \<times> 'st)" where
  "processAction srv st userId actionType metadata =
     (case getTask srv st (property metadata ''taskId'') of
        None \<Rightarrow> Inl TASK_NOT_FOUND
      | Some tsk \<Rightarrow>
          if task_userId tsk \<noteq> userId then Inl UNAUTHORIZED
          else if completed tsk then Inl ALREADY_COMPLETED
          else
            let points = table_entry (SCORE_TABLE srv) actionType;
                points = (if less_number (ToNumber srv (property metadata ''completionTime'')) 60
                          then mul_number points (Num (3 / 2)) else points);
                userLevel = getUserLevel srv st userId;
                points = mul_number points (table_entry (LEVEL_MULTIPLIERS srv) userLevel)
            in Inr (points, updateUserScore srv userId points st))"

text \<open>
  A server for the examples: one open task of \<open>user1\<close>, 50 points for \<open>COMPLETE_TASK\<close>, and
  the scores of the users as the state.
\<close>

definition example_server :: "(string \<Rightarrow> number) server" where
  "example_server =
     \<lparr>getTask = (\<lambda>st tid. if tid = VStr ''task1''
                            then Some \<lparr>task_userId = ''user1'', completed = False\<rparr> else None),
      getUserLevel = (\<lambda>st u. ''1''),
      SCORE_TABLE = [''COMPLETE_TASK'' \<mapsto> Num 50, ''DAILY_LOGIN'' \<mapsto> Num 10],
      LEVEL_MULTIPLIERS = [''1'' \<mapsto> Num 1, ''2'' \<mapsto> Num 2],
      updateUserScore = (\<lambda>u p st. st(u := add_number (st u) p)),
      StringToNumber = (\<lambda>s. NaN)\<rparr>"

section \<open>Problem 6: sliding-window rate limiting over a Redis sorted set\<close>

text \<open>The error codes of the pipeline.\<close>

datatype rejection =
    RATE_LIMIT_EXCEEDED
  | INVALID_TOKEN
  | TOKEN_EXPIRED
  | FORBIDDEN
  | STALE_REQUEST
  | REPLAY_ATTACK
  | INVALID_SIGNATURE
  | RESOURCE_NOT_FOUND
  | UNAUTHORIZED_RESOURCE_ACCESS
  | ALREADY_COMPLETED_ACTION
  | COOLDOWN_ACTIVE
  | CONCURRENT_MODIFICATION
  | STORE_UNAVAILABLE

text \<open>
  A Redis key holding a sorted set: the entries (score and member; the member
  \<open>`${now}-${uuid()}`\<close> is kept as the pair of its two parts) and the instant, in
  milliseconds, at which the key expires. A key that does not exist has no entries and
  no expiry. Redis and \<open>Date.now()\<close> read the same clock in this model.
\<close>

record zset =
  entries :: "(int \<times> (int \<times> string)) list"
  expireAt :: "int option"

type_synonym redis = "string \<Rightarrow> zset"

definition no_key :: zset where
  "no_key = \<lparr>entries = [], expireAt = None\<rparr>"

text \<open>The key as a command issued at time \<open>now\<close> finds it: gone once its expiry has passed.\<close>

definition lookup_key :: "redis \<Rightarrow> int \<Rightarrow> string \<Rightarrow> zset" where
  "lookup_key r now key =
     (case expireAt (r key) of
        None \<Rightarrow> r key
      | Some t \<Rightarrow> if t \<le> now then no_key else r key)"

text \<open>\<open>ZREMRANGEBYSCORE key min max\<close>; a key left without entries is removed.\<close>

definition zremrangebyscore :: "redis \<Rightarrow> int \<Rightarrow> string \<Rightarrow> int \<Rightarrow> int \<Rightarrow> redis" where
  "zremrangebyscore r now key lo hi =
     (let z = lookup_key r now key;
          kept = filter (\<lambda>(score, member). \<not> (lo \<le> score \<and> score \<le> hi)) (entries z)
      in r(key := (if kept = [] then no_key else z\<lparr>entries := kept\<rparr>)))"

definition zcard :: "redis \<Rightarrow> int \<Rightarrow> string \<Rightarrow> nat" where
  "zcard r now key = length (entries (lookup_key r now key))"

text \<open>\<open>ZADD key score member\<close>: a member already in the set only gets the new score.\<close>

definition zadd :: "redis \<Rightarrow> int \<Rightarrow> string \<Rightarrow> int \<Rightarrow> (int \<times> string) \<Rightarrow> redis" where
  "zadd r now key score member =
     (let z = lookup_key r now key
      in r(key := z\<lparr>entries := filter (\<lambda>(s, m). m \<noteq> member) (entries z) @ [(score, member)]\<rparr>))"

text \<open>\<open>EXPIRE key seconds\<close>: no effect on a key that does not exist.\<close>

definition expire :: "redis \<Rightarrow> int \<Rightarrow> string \<Rightarrow> int \<Rightarrow> redis" where
  "expire r now key seconds =
     (let z = lookup_key r now key
      in if entries z = [] then r(key := no_key)
         else r(key := z\<lparr>expireAt := Some (now + seconds * 1000)\<rparr>))"

definition windowSize :: int where
  "windowSize = 60000"


definition rate_limit_key :: "string \<Rightarrow> string \<Rightarrow> string" where
  "rate_limit_key userId action = ''rate_limit:'' @ userId @ '':'' @ action"



text \<open>
  Each of the four commands is awaited on its own, so the commands of two requests can
  interleave. A request in flight is at one of these points: before the purge, after
  the purge, holding the count that \<open>zcard\<close> returned, after \<open>zadd\<close>, or finished with
  its result.
\<close>

datatype progress = Start | Purged | Counted nat | Added | Finished "rejection + unit"

record in_flight =
  userId_of :: string
  action_of :: string
  limit_of :: nat
  now_of :: int
  uuid_of :: string
  pc :: progress

text \<open>The next command of a request in flight (the comparison with the limit is local).\<close>

definition step :: "redis \<Rightarrow> in_flight \<Rightarrow> redis \<times> in_flight" where
  "step r p =
     (let key = rate_limit_key (userId_of p) (action_of p); now = now_of p
      in case pc p of
           Start \<Rightarrow> (zremrangebyscore r now key 0 (now - windowSize), p\<lparr>pc := Purged\<rparr>)
         | Purged \<Rightarrow> (r, p\<lparr>pc := Counted (zcard r now key)\<rparr>)
         | Counted count \<Rightarrow>
             if count \<ge> limit_of p then (r, p\<lparr>pc := Finished (Inl RATE_LIMIT_EXCEEDED)\<rparr>)
             else (zadd r now key now (now, uuid_of p), p\<lparr>pc := Added\<rparr>)
         | Added \<Rightarrow>
             (expire r now key (- ((- windowSize) div 1000)), p\<lparr>pc := Finished (Inr ())\<rparr>)
         | Finished res \<Rightarrow> (r, p))"

text \<open>
  A schedule names, command by command, the request whose next command Redis executes.
\<close>

fun run :: "redis \<Rightarrow> in_flight list \<Rightarrow> nat list \<Rightarrow> redis \<times> in_flight list" where
  "run r ps [] = (r, ps)"
| "run r ps (i # schedule) =
     (if i < length ps
      then (case step r (ps ! i) of (r', p') \<Rightarrow> run r' (ps[i := p']) schedule)
      else run r ps schedule)"



section \<open>Problem 6: request signing and the nonce store\<close>


















section \<open>Problem 6: the transactional ledger\<close>

record ScoreTransaction =
  tx_userId :: string
  tx_actionType :: string
  scoreBefore :: int
  scoreDelta :: int
  scoreAfter :: int
  occurredAt :: int

text \<open>The stored part of a user's score state (the rank is derived).\<close>

record UserScoreState =
  currentScore :: int
  lastActionAt :: "int option"

text \<open>
  The durable store: the score row of every user (a user starts with the score 0, the
  default of \<open>users.current_score\<close>) and the append-only history, in commit order.
\<close>

record ledger =
  user_scores :: "string \<Rightarrow> UserScoreState"
  score_history :: "ScoreTransaction list"

definition initial_ledger :: ledger where
  "initial_ledger =
     \<lparr>user_scores = (\<lambda>u. \<lparr>currentScore = 0, lastActionAt = None\<rparr>), score_history = []\<rparr>"

text \<open>The operations of one commit, each of which the store may fail.\<close>

datatype commit_step = LockRow | AppendTransaction | UpdateState | CommitUnit

text \<open>What a rollback undoes, newest first.\<close>

datatype undo = RemoveLastTransaction | RestoreState string UserScoreState

fun apply_undo :: "undo \<Rightarrow> ledger \<Rightarrow> ledger" where
  "apply_undo RemoveLastTransaction l = l\<lparr>score_history := butlast (score_history l)\<rparr>"
| "apply_undo (RestoreState u s) l = l\<lparr>user_scores := (user_scores l)(u := s)\<rparr>"

definition rollback :: "undo list \<Rightarrow> ledger \<Rightarrow> ledger" where
  "rollback undos l = fold apply_undo undos l"

text \<open>
  Modelled from the spec: \<open>TransactionalLedger.commit\<close>, of which the repository holds
  the table definitions and the transaction diagram and no code. One atomic unit: lock
  the user's score row, recompute \<open>scoreAfter\<close>, append a \<open>ScoreTransaction\<close> row, update
  the \<open>UserScoreState\<close>; a failure at any point rolls the unit back. \<open>fails\<close> tells which
  operations the store fails in this attempt; a row that cannot be locked is a
  \<open>CONCURRENT_MODIFICATION\<close>. Commits for one user are serialised by the row lock, so a
  commit runs against the ledger the previous commit left.
\<close>

definition commit ::
  "(commit_step \<Rightarrow> bool) \<Rightarrow> ledger \<Rightarrow> string \<Rightarrow> string \<Rightarrow> int \<Rightarrow> int
   \<Rightarrow> (rejection + ScoreTransaction) \<times> ledger" where
  "commit fails l userId actionType delta now =
     (if fails LockRow then (Inl CONCURRENT_MODIFICATION, l)
      else
        let before = currentScore (user_scores l userId);
            tx = \<lparr>tx_userId = userId, tx_actionType = actionType, scoreBefore = before,
                  scoreDelta = delta, scoreAfter = before + delta, occurredAt = now\<rparr>
        in if fails AppendTransaction then (Inl STORE_UNAVAILABLE, rollback [] l)
           else
             let l1 = l\<lparr>score_history := score_history l @ [tx]\<rparr>;
                 undo1 = [RemoveLastTransaction]
             in if fails UpdateState then (Inl STORE_UNAVAILABLE, rollback undo1 l1)
                else
                  let l2 = l1\<lparr>user_scores := (user_scores l1)
                                  (userId := \<lparr>currentScore = scoreAfter tx, lastActionAt = Some now\<rparr>)\<rparr>;
                      undo2 = RestoreState userId (user_scores l userId) # undo1
                  in if fails CommitUnit then (Inl STORE_UNAVAILABLE, rollback undo2 l2)
                     else (Inr tx, l2))"

text \<open>A sequence of commit attempts, each with the failures the store has in it.\<close>

record attempt =
  failing :: "commit_step \<Rightarrow> bool"
  for_user :: string
  for_action :: string
  delta_of :: int
  at_time :: int

fun commits :: "ledger \<Rightarrow> attempt list \<Rightarrow> ledger" where
  "commits l [] = l"
| "commits l (a # rest) =
     commits (snd (commit (failing a) l (for_user a) (for_action a) (delta_of a) (at_time a))) rest"

text \<open>
  Attempts for the examples: a commit of 50 points for user1, one of 30 points for user1
  in which the update of the score row fails, one of 10 points for user2 and one of 20
  points for user1.
\<close>

definition example_attempts :: "attempt list" where
  "example_attempts =
     [\<lparr>failing = (\<lambda>st. False), for_user = ''user1'', for_action = ''COMPLETE_TASK'',
       delta_of = 50, at_time = 1000\<rparr>,
      \<lparr>failing = (\<lambda>st. st = UpdateState), for_user = ''user1'', for_action = ''COMPLETE_TASK'',
       delta_of = 30, at_time = 2000\<rparr>,
      \<lparr>failing = (\<lambda>st. False), for_user = ''user2'', for_action = ''COMPLETE_TASK'',
       delta_of = 10, at_time = 3000\<rparr>,
      \<lparr>failing = (\<lambda>st. False), for_user = ''user1'', for_action = ''COMPLETE_TASK'',
       delta_of = 20, at_time = 4000\<rparr>]"

text \<open>The history of one user, in commit order, and its replay from a starting score.\<close>

definition user_history :: "ledger \<Rightarrow> string \<Rightarrow> ScoreTransaction list" where
  "user_history l u = filter (\<lambda>t. tx_userId t = u) (score_history l)"

definition replay :: "int \<Rightarrow> ScoreTransaction list \<Rightarrow> int" where
  "replay start h = fold (\<lambda>t s. s + scoreDelta t) h start"

text \<open>
  A history is chained from a starting score when every transaction starts where the
  one before it ended and ends at its start plus its delta.
\<close>

fun chained :: "int \<Rightarrow> ScoreTransaction list \<Rightarrow> bool" where
  "chained s [] = True"
| "chained s (t # ts) =
     (scoreBefore t = s \<and> scoreAfter t = scoreBefore t + scoreDelta t \<and> chained (scoreAfter t) ts)"

section \<open>Problem 6: the pipeline\<close>








section \<open>Problem 4: the three summations agree\<close>

lemma MAX_SAFE_FORMULA_INPUT_eq: "MAX_SAFE_FORMULA_INPUT = 134217727"
proof -
  have lo: "(134217727::real) \<le> sqrt 18014398509481982"
    by (rule real_le_rsqrt) simp
  have hi: "sqrt 18014398509481982 < (134217728::real)"
    by (rule real_less_lsqrt) simp_all
  show ?thesis
    unfolding MAX_SAFE_FORMULA_INPUT_def Number_MAX_SAFE_INTEGER_def
    using lo hi by (simp add: floor_eq_iff)
qed

lemma validateInput_Inr_finite:
  "validateInput n maxValue context = Inr u \<Longrightarrow> \<exists>r. n = Num r \<and> of_int \<lfloor>r\<rfloor> = r \<and> 0 \<le> r"
  by (cases n) (auto simp: validateInput_def split: if_splits)

lemma for_loop_a_sum:
  "i \<le> n + 1 \<Longrightarrow> nat (n + 1 - i) = d \<Longrightarrow>
   for_loop_a (of_int n) (of_int i) s = s + (of_int n * (of_int n + 1) - (of_int i - 1) * of_int i) / 2"
proof (induction d arbitrary: i s)
  case 0
  then have "i = n + 1" by simp
  then show ?case by (subst for_loop_a.simps) (simp add: algebra_simps)
next
  case (Suc d)
  then have le: "i \<le> n" and d: "nat (n + 1 - (i + 1)) = d" and le': "i + 1 \<le> n + 1" by simp_all
  have "for_loop_a (of_int n) (of_int i) s = for_loop_a (of_int n) (of_int (i + 1)) (s + of_int i)"
    using le by (subst for_loop_a.simps) simp
  also have "\<dots> = (s + of_int i) + (of_int n * (of_int n + 1) - (of_int (i + 1) - 1) * of_int (i + 1)) / 2"
    by (rule Suc.IH [OF le' d])
  also have "\<dots> = s + (of_int n * (of_int n + 1) - (of_int i - 1) * of_int i) / 2"
    by (simp add: field_simps)
  finally show ?case .
qed

lemma half_product: "rat_of_int k * (of_int k + 1) / 2 = of_int (k * (k + 1) div 2)"
proof -
  have "even (k * (k + 1))" by simp
  then obtain m where m: "k * (k + 1) = 2 * m" by (elim evenE)
  have "rat_of_int k * (of_int k + 1) = of_int (k * (k + 1))" by simp
  also have "\<dots> = 2 * of_int m" by (simp only: m of_int_mult of_int_numeral)
  finally show ?thesis using m by simp
qed

lemma sum_to_n_a_value:
  assumes "0 \<le> k"
  shows "sum_to_n_a (Num (of_int k)) = Inr (Num (of_int (k * (k + 1) div 2)))"
proof -
  have v: "validateInput (Num (of_int k)) None None = Inr ()"
    using assms by (simp add: validateInput_def)
  have "for_loop_a (of_int k) (of_int 1) 0 = 0 + (of_int k * (of_int k + 1) - (of_int 1 - 1) * of_int 1) / 2"
    using assms by (intro for_loop_a_sum [where d = "nat k"]) simp_all
  then have "for_loop_a (of_int k) 1 0 = rat_of_int k * (of_int k + 1) / 2" by simp
  then show ?thesis
    using v by (simp add: sum_to_n_a_def half_product)
qed

lemma sum_to_n_b_value:
  assumes "0 \<le> k" "k \<le> 134217727"
  shows "sum_to_n_b (Num (of_int k)) = Inr (Num (of_int (k * (k + 1) div 2)))"
proof -
  have v: "validateInput (Num (of_int k)) (Some MAX_SAFE_FORMULA_INPUT) (Some ''formula'') = Inr ()"
    using assms by (simp add: validateInput_def MAX_SAFE_FORMULA_INPUT_eq)
  show ?thesis
    using v by (simp add: sum_to_n_b_def half_product)
qed

lemma validateInput_recursive_ok:
  assumes "0 \<le> k" and "k \<le> 10000"
  shows "validateInput (Num (of_int k)) (Some MAX_SAFE_RECURSIVE_INPUT) (Some ''recursive'') = Inr ()"
  using assms by (simp add: validateInput_def MAX_SAFE_RECURSIVE_INPUT_def)

lemma sum_to_n_c_step:
  assumes "2 \<le> k" and "k \<le> 10000"
  shows "sum_to_n_c (Suc frames) (Num (of_int k))
         = (case sum_to_n_c frames (Num (of_int (k - 1))) of
              Inl e \<Rightarrow> Inl e
            | Inr s \<Rightarrow> Inr (add_number (Num (of_int k)) s))"
proof -
  have v: "validateInput (Num (of_int k)) (Some MAX_SAFE_RECURSIVE_INPUT) (Some ''recursive'') = Inr ()"
    using assms by (intro validateInput_recursive_ok) simp_all
  have ne: "\<not> (rat_of_int k = 0 \<or> rat_of_int k = 1)" using assms(1) by simp
  have pred: "rat_of_int k - 1 = of_int (k - 1)" by simp
  show ?thesis
    by (simp only: sum_to_n_c.simps v sum.case number.case ne if_False pred)
qed

lemma sum_to_n_c_value:
  "1 \<le> k \<Longrightarrow> k \<le> int frames \<Longrightarrow> k \<le> 10000 \<Longrightarrow>
   sum_to_n_c frames (Num (of_int k)) = Inr (Num (of_int (k * (k + 1) div 2)))"
proof (induction frames arbitrary: k)
  case 0
  then show ?case by simp
next
  case (Suc frames)
  show ?case
  proof (cases "k = 1")
    case True
    then show ?thesis by (simp add: validateInput_def MAX_SAFE_RECURSIVE_INPUT_def)
  next
    case False
    with Suc.prems have k2: "2 \<le> k" by simp
    have IH: "sum_to_n_c frames (Num (of_int (k - 1)))
              = Inr (Num (of_int ((k - 1) * ((k - 1) + 1) div 2)))"
      using Suc.prems k2 by (intro Suc.IH) simp_all
    have step: "rat_of_int k + of_int ((k - 1) * ((k - 1) + 1) div 2)
                = of_int (k * (k + 1) div 2)"
      unfolding half_product [symmetric] by (simp add: field_simps)
    show ?thesis
      by (simp only: sum_to_n_c_step [OF k2 Suc.prems(3)] IH sum.case add_number.simps step)
  qed
qed

lemma sum_to_n_c_zero: "sum_to_n_c (Suc frames) (Num 0) = Inr (Num 0)"
  by (simp add: validateInput_def MAX_SAFE_RECURSIVE_INPUT_def)

lemma sum_to_n_c_overflow:
  "int frames < k \<Longrightarrow> k \<le> 10000 \<Longrightarrow> sum_to_n_c frames (Num (of_int k)) = Inl RangeError"
proof (induction frames arbitrary: k)
  case 0
  show ?case by simp
next
  case (Suc frames)
  then have k2: "2 \<le> k" by simp
  have IH: "sum_to_n_c frames (Num (of_int (k - 1))) = Inl RangeError"
    using Suc.prems by (intro Suc.IH) simp_all
  show ?case
    by (simp only: sum_to_n_c_step [OF k2 Suc.prems(2)] IH sum.case)
qed

lemma intermediate_values_safe:
  assumes "0 \<le> k" "k \<le> MAX_SAFE_RECURSIVE_INPUT"
  shows "k * (k + 1) \<le> Number_MAX_SAFE_INTEGER"
proof -
  have "k * (k + 1) \<le> 10000 * (10000 + 1)"
    using assms unfolding MAX_SAFE_RECURSIVE_INPUT_def by (intro mult_mono) simp_all
  then show ?thesis by (simp add: Number_MAX_SAFE_INTEGER_def)
qed

lemma invalid_input_rejected:
  assumes "\<not> Number_isInteger x \<or> less_number x 0"
  shows "sum_to_n_a x = Inl NotNonNegativeInteger"
    and "sum_to_n_b x = Inl NotNonNegativeInteger"
    and "sum_to_n_c (Suc frames) x = Inl NotNonNegativeInteger"
proof -
  have v: "validateInput x m c = Inl NotNonNegativeInteger" for m c
    using assms by (simp add: validateInput_def)
  show "sum_to_n_a x = Inl NotNonNegativeInteger" by (simp add: sum_to_n_a_def v)
  show "sum_to_n_b x = Inl NotNonNegativeInteger" by (simp add: sum_to_n_b_def v)
  show "sum_to_n_c (Suc frames) x = Inl NotNonNegativeInteger" by (simp add: v)
qed

lemma sum_to_n_agreement:
  assumes "0 \<le> k" and "k \<le> MAX_SAFE_RECURSIVE_INPUT"
  shows "sum_to_n_a (Num (of_int k)) = Inr (Num (of_int (k * (k + 1) div 2)))"
    and "sum_to_n_b (Num (of_int k)) = Inr (Num (of_int (k * (k + 1) div 2)))"
    and "k < int frames \<Longrightarrow>
         sum_to_n_c frames (Num (of_int k)) = Inr (Num (of_int (k * (k + 1) div 2)))"
    and "int frames < k \<Longrightarrow> sum_to_n_c frames (Num (of_int k)) = Inl RangeError"
proof -
  from assms have k0: "0 \<le> k" and k1: "k \<le> 10000" by (simp_all add: MAX_SAFE_RECURSIVE_INPUT_def)
  show "sum_to_n_a (Num (of_int k)) = Inr (Num (of_int (k * (k + 1) div 2)))"
    using k0 by (rule sum_to_n_a_value)
  show "sum_to_n_b (Num (of_int k)) = Inr (Num (of_int (k * (k + 1) div 2)))"
    using k0 k1 by (intro sum_to_n_b_value) simp_all
  show "sum_to_n_c frames (Num (of_int k)) = Inr (Num (of_int (k * (k + 1) div 2)))"
    if "k < int frames"
  proof (cases "k = 0")
    case True
    with that obtain f where "frames = Suc f" by (cases frames) auto
    with True show ?thesis by (simp only: sum_to_n_c_zero of_int_0 mult_zero_left div_0)
  next
    case False
    with k0 that k1 show ?thesis by (intro sum_to_n_c_value) simp_all
  qed
  show "sum_to_n_c frames (Num (of_int k)) = Inl RangeError" if "int frames < k"
    using that k1 by (rule sum_to_n_c_overflow)
qed

text \<open>
  Claim C9 fails in the code inside its own range. \<open>validateInput\<close> lets \<open>sum_to_n_c\<close>
  recurse for every \<open>n\<close> up to \<open>MAX_SAFE_RECURSIVE_INPUT = 10000\<close>, but the call stack that
  \<open>utils/index.ts\<close> itself records for V8, about 8,874 calls, is smaller than that guard:
  at \<open>n = 10000\<close> the input passes the validation, the loop and the formula return
  50005000, and the recursion throws \<open>RangeError\<close>.
\<close>

theorem sum_to_n_c_overflows_below_guard:
  "validateInput (Num 10000) (Some MAX_SAFE_RECURSIVE_INPUT) (Some ''recursive'') = Inr ()
   \<and> sum_to_n_a (Num 10000) = Inr (Num 50005000)
   \<and> sum_to_n_b (Num 10000) = Inr (Num 50005000)
   \<and> sum_to_n_c V8_CALL_STACK_CALLS (Num 10000) = Inl RangeError"
proof -
  have n: "Num 10000 = Num (of_int 10000)" by simp
  have v: "validateInput (Num 10000) (Some MAX_SAFE_RECURSIVE_INPUT) (Some ''recursive'') = Inr ()"
    unfolding n by (rule validateInput_recursive_ok) simp_all
  have a: "sum_to_n_a (Num 10000) = Inr (Num 50005000)"
    unfolding n using sum_to_n_a_value [of 10000] by simp
  have b: "sum_to_n_b (Num 10000) = Inr (Num 50005000)"
    unfolding n using sum_to_n_b_value [of 10000] by simp
  have c: "sum_to_n_c V8_CALL_STACK_CALLS (Num 10000) = Inl RangeError"
    unfolding n by (rule sum_to_n_c_overflow) (simp_all add: V8_CALL_STACK_CALLS_def)
  from v a b c show ?thesis by (intro conjI)
qed

theorem sum_to_n_c_overflows_below_guard_witness:
  "sum_to_n_c V8_CALL_STACK_CALLS (Num 10000) = Inl RangeError
   \<and> sum_to_n_c V8_CALL_STACK_CALLS (Num 10000) \<noteq> sum_to_n_a (Num 10000)
   \<and> sum_to_n_a (Num 10000) = sum_to_n_b (Num 10000)"
  using sum_to_n_c_overflows_below_guard by simp

section \<open>Problem 5: error handler, authentication and the delete route\<close>

lemma split_no_separator: "c \<notin> set t \<Longrightarrow> split c t = [t]"
  by (induction t) auto

lemma bearer_token: "CHR '' '' \<notin> set t \<Longrightarrow> index (split CHR '' '' (''Bearer '' @ t)) 1 = Some t"
  by (simp add: split_no_separator)

lemma startsWith_bearer: "startsWith (''Bearer '' @ t) ''Bearer ''"
  by (simp add: startsWith_def)

lemma authenticate_rejected_token:
  assumes "jwt_verify e t = Inl err" and "CHR '' '' \<notin> set t"
  shows "authenticate e d (req\<lparr>authorization := Some (''Bearer '' @ t)\<rparr>)
         = NextError (AppError ''Invalid or expired token.'' 401 (captureStackTrace e))"
proof -
  define h where "h = ''Bearer '' @ t"
  have tok: "index (split CHR '' '' h) (Suc 0) = Some t"
    unfolding h_def using bearer_token [OF assms(2)] by (simp only: One_nat_def)
  have v: "verifyToken e (Some t) = None"
    using assms(1) by (simp add: verifyToken_def)
  have sw: "startsWith h ''Bearer ''" and ne: "h \<noteq> []"
    unfolding h_def by (rule startsWith_bearer) simp
  have "authenticate e d (req\<lparr>authorization := Some h\<rparr>)
         = NextError (AppError ''Invalid or expired token.'' 401 (captureStackTrace e))"
    by (simp add: authenticate_def tok v sw ne)
  then show ?thesis by (simp only: h_def)
qed

lemma authenticate_accepted_token:
  assumes "jwt_verify e t = Inr p" and "CHR '' '' \<notin> set t"
    and "User_findById d (payload_id p) = Inr (Some u)" and "isActive u"
  shows "authenticate e d (req\<lparr>authorization := Some (''Bearer '' @ t)\<rparr>)
         = Next (req\<lparr>authorization := Some (''Bearer '' @ t),
                      user := Some \<lparr>user_id = payload_id p, email = payload_email p,
                                    role = payload_role p\<rparr>\<rparr>)"
proof -
  define h where "h = ''Bearer '' @ t"
  have tok: "index (split CHR '' '' h) (Suc 0) = Some t"
    unfolding h_def using bearer_token [OF assms(2)] by (simp only: One_nat_def)
  have v: "verifyToken e (Some t) = Some p"
    using assms(1) by (simp add: verifyToken_def)
  have sw: "startsWith h ''Bearer ''" and ne: "h \<noteq> []"
    unfolding h_def by (rule startsWith_bearer) simp
  have "authenticate e d (req\<lparr>authorization := Some h\<rparr>)
         = Next (req\<lparr>authorization := Some h,
                      user := Some \<lparr>user_id = payload_id p, email = payload_email p,
                                    role = payload_role p\<rparr>\<rparr>)"
    using assms(3,4) by (simp add: authenticate_def tok v sw ne)
  then show ?thesis by (simp only: h_def)
qed

lemma authenticate_keeps_request:
  "authenticate e d req = Next req' \<Longrightarrow> \<exists>u. req' = req\<lparr>user := Some u\<rparr>"
  by (auto simp: authenticate_def split: option.splits if_splits sum.splits)

lemma authorize_Next_iff:
  "(authorize e roles req = Next req) = (\<exists>u. user req = Some u \<and> role u \<in> set roles)"
  by (auto simp: authorize_def split: option.splits)

lemma authorize_forbidden:
  assumes "user req = Some u" and "role u \<notin> set roles"
  shows "authorize e roles req
         = NextError (AppError (''Access denied. Required role(s): '' @ join_roles roles
                                @ ''. Your role: '' @ role_string (role u)) 403
                        (captureStackTrace e))"
  using assms by (simp add: authorize_def)

lemma router_delete_admin_deletes:
  assumes "authenticate e d req = Next req'" and "user req' = Some u" and "role u = ADMIN"
    and "isMongoId (params_id req')" and "validation req' = []"
    and "news d (params_id req') = Some n"
  shows "router_delete e d req
         = (\<lparr>status = 200,
              body = [(''success'', JBool True), (''message'', JStr ''News deleted successfully'')]\<rparr>,
            d\<lparr>news := (news d)(params_id req' := None)\<rparr>)"
  using assms
  by (simp add: router_delete_def authorize_def idParamValidation_def
      handleValidationErrors_def deleteNews_def)

text \<open>
  Claim C10. A request to \<open>DELETE /api/news/:id\<close> that \<open>authenticate\<close> has accepted for a
  user whose role is \<open>editor\<close> or \<open>viewer\<close> is answered by the error handler with status
  403 for the \<open>Access denied\<close> error of \<open>authorize(USER_ROLES.ADMIN)\<close>; the database after
  the request is the database before it, so \<open>deleteNews\<close> has deleted nothing. This holds
  although \<open>hasPermission\<close> grants \<open>delete\<close> to the editor role.
\<close>

theorem delete_unreachable_for_non_admin:
  assumes "authenticate e d req = Next req'"
    and "user req' = Some u"
    and "role u = EDITOR \<or> role u = VIEWER"
  shows "router_delete e d req
           = (errorHandler e
                (AppError (''Access denied. Required role(s): admin. Your role: ''
                           @ role_string (role u)) 403 (captureStackTrace e)), d)
         \<and> status (fst (router_delete e d req)) = 403
         \<and> snd (router_delete e d req) = d
         \<and> hasPermission EDITOR ''delete''"
proof -
  have "role u \<notin> set [ADMIN]" using assms(3) by auto
  from authorize_forbidden [OF assms(2) this]
  have "authorize e [ADMIN] req'
        = NextError (AppError (''Access denied. Required role(s): admin. Your role: ''
                               @ role_string (role u)) 403 (captureStackTrace e))"
    by simp
  then have r: "router_delete e d req
           = (errorHandler e
                (AppError (''Access denied. Required role(s): admin. Your role: ''
                           @ role_string (role u)) 403 (captureStackTrace e)), d)"
    using assms(1) by (simp add: router_delete_def)
  have "hasPermission EDITOR ''delete''" by (simp add: hasPermission_def)
  with r show ?thesis by simp
qed

theorem delete_unreachable_for_non_admin_witness:
  "authenticate (example_env None) example_db (example_request ''Bearer editor.jwt'')
     = Next ((example_request ''Bearer editor.jwt'')
               \<lparr>user := Some \<lparr>user_id = ''u1'', email = ''ed@example.com'', role = EDITOR\<rparr>\<rparr>)
   \<and> router_delete (example_env None) example_db (example_request ''Bearer editor.jwt'')
     = (\<lparr>status = 403,
          body = [(''success'', JBool False),
                  (''message'',
                   JStr ''Access denied. Required role(s): admin. Your role: editor'')]\<rparr>,
        example_db)
   \<and> news example_db ''507f1f77bcf86cd799439011'' \<noteq> None"
proof -
  have a: "authenticate (example_env None) example_db (example_request ''Bearer editor.jwt'')
     = Next ((example_request ''Bearer editor.jwt'')
               \<lparr>user := Some \<lparr>user_id = ''u1'', email = ''ed@example.com'', role = EDITOR\<rparr>\<rparr>)"
    by (simp add: authenticate_def example_request_def example_env_def example_db_def
        startsWith_def verifyToken_def example_jwt_verify_def)
  have n: "news example_db ''507f1f77bcf86cd799439011'' \<noteq> None"
    by (simp add: example_db_def)
  from delete_unreachable_for_non_admin [OF a, of "\<lparr>user_id = ''u1'', email = ''ed@example.com'', role = EDITOR\<rparr>"]
  show ?thesis using a n by (simp add: example_env_def)
qed

text \<open>
  Claim C6, as the claim states it, fails: an expired token and a malformed token are
  rejected with one and the same error, \<open>AppError('Invalid or expired token.', 401)\<close>.
\<close>

theorem authenticate_expired_and_invalid_same_error:
  "jwt_verify (example_env None) ''expired.jwt'' = Inl TokenExpiredError
   \<and> jwt_verify (example_env None) ''garbage'' = Inl JsonWebTokenError
   \<and> authenticate (example_env None) example_db (example_request ''Bearer expired.jwt'')
       = NextError (AppError ''Invalid or expired token.'' 401 ''Error at authenticate (auth.ts)'')
   \<and> authenticate (example_env None) example_db (example_request ''Bearer garbage'')
       = NextError (AppError ''Invalid or expired token.'' 401 ''Error at authenticate (auth.ts)'')"
  by (simp add: authenticate_def example_request_def example_env_def example_db_def
      startsWith_def verifyToken_def example_jwt_verify_def)

text \<open>
  Claim C6, amended. \<open>authenticate\<close> answers every token that \<open>jwt.verify\<close> refuses,
  expired or invalid alike, with the single error \<open>Invalid or expired token.\<close> (status
  401), and attaches the id, email and role of the payload for a verified token of an
  active user. \<open>authorize(...roles)\<close> calls \<open>next()\<close> exactly when a user is attached and
  the user's role is one of the route's roles; a user whose role is not among them is
  rejected with status 403. The decision reads nothing but that membership.
\<close>

theorem authgate_contract:
  "(jwt_verify e t1 = Inl err \<and> CHR '' '' \<notin> set t1 \<longrightarrow>
      authenticate e d (req\<lparr>authorization := Some (''Bearer '' @ t1)\<rparr>)
      = NextError (AppError ''Invalid or expired token.'' 401 (captureStackTrace e)))
   \<and> (jwt_verify e t2 = Inr p \<and> CHR '' '' \<notin> set t2
        \<and> User_findById d (payload_id p) = Inr (Some ud) \<and> isActive ud \<longrightarrow>
      authenticate e d (req\<lparr>authorization := Some (''Bearer '' @ t2)\<rparr>)
      = Next (req\<lparr>authorization := Some (''Bearer '' @ t2),
                   user := Some \<lparr>user_id = payload_id p, email = payload_email p,
                                 role = payload_role p\<rparr>\<rparr>))
   \<and> ((authorize e roles rq = Next rq) = (\<exists>u. user rq = Some u \<and> role u \<in> set roles))
   \<and> (user rq = Some u' \<and> role u' \<notin> set roles \<longrightarrow>
      (\<exists>msg. authorize e roles rq = NextError (AppError msg 403 (captureStackTrace e))))"
proof (intro conjI impI)
  assume "jwt_verify e t1 = Inl err \<and> CHR '' '' \<notin> set t1"
  then show "authenticate e d (req\<lparr>authorization := Some (''Bearer '' @ t1)\<rparr>)
      = NextError (AppError ''Invalid or expired token.'' 401 (captureStackTrace e))"
    by (intro authenticate_rejected_token [where err = err]) simp_all
next
  assume "jwt_verify e t2 = Inr p \<and> CHR '' '' \<notin> set t2
        \<and> User_findById d (payload_id p) = Inr (Some ud) \<and> isActive ud"
  then show "authenticate e d (req\<lparr>authorization := Some (''Bearer '' @ t2)\<rparr>)
      = Next (req\<lparr>authorization := Some (''Bearer '' @ t2),
                   user := Some \<lparr>user_id = payload_id p, email = payload_email p,
                                 role = payload_role p\<rparr>\<rparr>)"
    by (intro authenticate_accepted_token [where u = ud]) simp_all
next
  show "(authorize e roles rq = Next rq) = (\<exists>u. user rq = Some u \<and> role u \<in> set roles)"
    by (rule authorize_Next_iff)
next
  assume "user rq = Some u' \<and> role u' \<notin> set roles"
  then show "\<exists>msg. authorize e roles rq = NextError (AppError msg 403 (captureStackTrace e))"
    by (simp add: authorize_def)
qed

theorem authgate_contract_witness:
  "jwt_verify (example_env None) ''expired.jwt'' = Inl TokenExpiredError
   \<and> CHR '' '' \<notin> set ''expired.jwt''
   \<and> authenticate (example_env None) example_db (example_request ''Bearer expired.jwt'')
       = NextError (AppError ''Invalid or expired token.'' 401 ''Error at authenticate (auth.ts)'')
   \<and> jwt_verify (example_env None) ''editor.jwt''
       = Inr \<lparr>payload_id = ''u1'', payload_email = ''ed@example.com'', payload_role = EDITOR\<rparr>
   \<and> User_findById example_db ''u1'' = Inr (Some \<lparr>isActive = True\<rparr>)
   \<and> authenticate (example_env None) example_db (example_request ''Bearer editor.jwt'')
       = Next ((example_request ''Bearer editor.jwt'')
                 \<lparr>user := Some \<lparr>user_id = ''u1'', email = ''ed@example.com'', role = EDITOR\<rparr>\<rparr>)
   \<and> authorize (example_env None) [ADMIN, EDITOR]
         ((example_request ''Bearer editor.jwt'')
            \<lparr>user := Some \<lparr>user_id = ''u1'', email = ''ed@example.com'', role = EDITOR\<rparr>\<rparr>)
       = Next ((example_request ''Bearer editor.jwt'')
                 \<lparr>user := Some \<lparr>user_id = ''u1'', email = ''ed@example.com'', role = EDITOR\<rparr>\<rparr>)
   \<and> (\<exists>msg. authorize (example_env None) [ADMIN]
                ((example_request ''Bearer editor.jwt'')
                   \<lparr>user := Some \<lparr>user_id = ''u1'', email = ''ed@example.com'', role = EDITOR\<rparr>\<rparr>)
              = NextError (AppError msg 403 ''Error at authenticate (auth.ts)''))"
proof -
  let ?e = "example_env None"
  let ?u = "\<lparr>user_id = ''u1'', email = ''ed@example.com'', role = EDITOR\<rparr>"
  let ?rq = "(example_request ''Bearer editor.jwt'')\<lparr>user := Some ?u\<rparr>"
  let ?p = "\<lparr>payload_id = ''u1'', payload_email = ''ed@example.com'', payload_role = EDITOR\<rparr>"
  have v1: "jwt_verify ?e ''expired.jwt'' = Inl TokenExpiredError"
    and v2: "jwt_verify ?e ''editor.jwt'' = Inr ?p"
    and f: "User_findById example_db ''u1'' = Inr (Some \<lparr>isActive = True\<rparr>)"
    and tr: "captureStackTrace ?e = ''Error at authenticate (auth.ts)''"
    by (simp_all add: example_env_def example_jwt_verify_def example_db_def)
  have r1: "(example_request '''')\<lparr>authorization := Some (''Bearer '' @ ''expired.jwt'')\<rparr>
            = example_request ''Bearer expired.jwt''"
    and r2: "(example_request '''')\<lparr>authorization := Some (''Bearer '' @ ''editor.jwt'')\<rparr>
            = example_request ''Bearer editor.jwt''"
    by (simp_all add: example_request_def)
  have a: "authorize ?e [ADMIN, EDITOR] ?rq = Next ?rq"
    using authgate_contract [where e = ?e and roles = "[ADMIN, EDITOR]" and rq = ?rq]
    by simp
  from authgate_contract [where e = ?e and d = example_db and req = "example_request ''''"
      and ?t1.0 = "''expired.jwt''" and err = TokenExpiredError
      and ?t2.0 = "''editor.jwt''" and p = ?p and ud = "\<lparr>isActive = True\<rparr>"
      and roles = "[ADMIN]" and rq = ?rq and u' = ?u]
  show ?thesis
    using v1 v2 f a unfolding r1 r2 tr by simp
qed




section \<open>Problem 6: zero-trust score calculation\<close>

lemma processAction_points:
  assumes "getTask srv st (property m ''taskId'') = Some tsk"
    and "task_userId tsk = userId" and "\<not> completed tsk"
  shows "map_sum id fst (processAction srv st userId actionType m)
         = Inr (mul_number
                  (if less_number (ToNumber srv (property m ''completionTime'')) 60
                   then mul_number (table_entry (SCORE_TABLE srv) actionType) (Num (3 / 2))
                   else table_entry (SCORE_TABLE srv) actionType)
                  (table_entry (LEVEL_MULTIPLIERS srv) (getUserLevel srv st userId)))"
  using assms by (simp add: processAction_def Let_def)

text \<open>
  Claim C1. Two \<open>metadata\<close> objects that agree on \<open>taskId\<close> and \<open>completionTime\<close>, the
  only properties \<open>processAction\<close> reads, give the same result (the same rejection, or the
  same points and the same updated state) for the same server state, tables, user and
  action type; in particular adding or changing any other property, such as a
  client-asserted \<open>pointsRequested\<close>, changes nothing.
\<close>

theorem zero_trust_noninterference:
  "(m1 ''taskId'' = m2 ''taskId'' \<and> m1 ''completionTime'' = m2 ''completionTime'' \<longrightarrow>
      processAction srv st userId actionType m1 = processAction srv st userId actionType m2)
   \<and> (k \<noteq> ''taskId'' \<and> k \<noteq> ''completionTime'' \<longrightarrow>
      processAction srv st userId actionType (m(k \<mapsto> v)) = processAction srv st userId actionType m)"
proof (intro conjI impI)
  assume "m1 ''taskId'' = m2 ''taskId'' \<and> m1 ''completionTime'' = m2 ''completionTime''"
  then have "property m1 ''taskId'' = property m2 ''taskId''"
    and "property m1 ''completionTime'' = property m2 ''completionTime''"
    by (simp_all add: property_def)
  then show "processAction srv st userId actionType m1 = processAction srv st userId actionType m2"
    by (simp only: processAction_def)
next
  assume "k \<noteq> ''taskId'' \<and> k \<noteq> ''completionTime''"
  then have "property (m(k \<mapsto> v)) ''taskId'' = property m ''taskId''"
    and "property (m(k \<mapsto> v)) ''completionTime'' = property m ''completionTime''"
    by (auto simp: property_def)
  then show "processAction srv st userId actionType (m(k \<mapsto> v))
             = processAction srv st userId actionType m"
    by (simp only: processAction_def)
qed

theorem zero_trust_noninterference_witness:
  "processAction example_server (\<lambda>u. Num 0) ''user1'' ''COMPLETE_TASK''
     [''taskId'' \<mapsto> VStr ''task1'', ''completionTime'' \<mapsto> VNum (Num 45),
      ''pointsRequested'' \<mapsto> VNum (Num 1000000)]
   = processAction example_server (\<lambda>u. Num 0) ''user1'' ''COMPLETE_TASK''
       [''taskId'' \<mapsto> VStr ''task1'', ''completionTime'' \<mapsto> VNum (Num 45),
        ''pointsRequested'' \<mapsto> VNum (Num 1)]
   \<and> processAction example_server (\<lambda>u. Num 0) ''user1'' ''COMPLETE_TASK''
     [''taskId'' \<mapsto> VStr ''task1'', ''completionTime'' \<mapsto> VNum (Num 45),
      ''pointsRequested'' \<mapsto> VNum (Num 1000000)]
   = processAction example_server (\<lambda>u. Num 0) ''user1'' ''COMPLETE_TASK''
       [''taskId'' \<mapsto> VStr ''task1'', ''completionTime'' \<mapsto> VNum (Num 45)]
   \<and> map_sum id fst
       (processAction example_server (\<lambda>u. Num 0) ''user1'' ''COMPLETE_TASK''
          [''taskId'' \<mapsto> VStr ''task1'', ''completionTime'' \<mapsto> VNum (Num 45)])
     = Inr (Num 75)"
proof -
  let ?m = "[''taskId'' \<mapsto> VStr ''task1'', ''completionTime'' \<mapsto> VNum (Num 45)]"
  let ?m1 = "?m(''pointsRequested'' \<mapsto> VNum (Num 1000000))"
  let ?m2 = "?m(''pointsRequested'' \<mapsto> VNum (Num 1))"
  let ?run = "processAction example_server (\<lambda>u. Num 0) ''user1'' ''COMPLETE_TASK''"
  have h1: "?m1 ''taskId'' = ?m2 ''taskId'' \<and> ?m1 ''completionTime'' = ?m2 ''completionTime''"
    by simp
  have h2: "''pointsRequested'' \<noteq> ''taskId'' \<and> ''pointsRequested'' \<noteq> ''completionTime''"
    by simp
  note inst = zero_trust_noninterference [where k = "''pointsRequested''" and m = ?m
        and v = "VNum (Num 1000000)" and srv = example_server and st = "\<lambda>u. Num 0"
        and userId = "''user1''" and actionType = "''COMPLETE_TASK''" and ?m1.0 = ?m1 and ?m2.0 = ?m2]
  from inst h1 have a: "?run ?m1 = ?run ?m2" by blast
  from inst h2 have b: "?run ?m1 = ?run ?m" by blast
  have c: "map_sum id fst (?run ?m) = Inr (Num 75)"
    by (simp add: processAction_def property_def example_server_def table_entry_def Let_def)
  from a b c show ?thesis by (intro conjI)
qed

section \<open>Problem 6: the sliding-window rate limit\<close>



lemma lookup_key_fresh:
  "now < e \<Longrightarrow> lookup_key (r(key := \<lparr>entries = es, expireAt = Some e\<rparr>)) now key
     = \<lparr>entries = es, expireAt = Some e\<rparr>"
  by (simp add: lookup_key_def)



















section \<open>Problem 6: replayed requests\<close>







section \<open>Problem 6: the ledger\<close>

lemma commit_failure:
  assumes "fails LockRow \<or> fails AppendTransaction \<or> fails UpdateState \<or> fails CommitUnit"
  shows "\<exists>e. commit fails l u a d now = (Inl e, l)"
proof -
  have r1: "l\<lparr>score_history := butlast (score_history l @ [tx])\<rparr> = l" for tx
    by simp
  show ?thesis
    using assms by (auto simp: commit_def rollback_def Let_def)
qed

lemma commit_success:
  assumes "\<not> (fails LockRow \<or> fails AppendTransaction \<or> fails UpdateState \<or> fails CommitUnit)"
  shows "commit fails l u a d now
         = (Inr \<lparr>tx_userId = u, tx_actionType = a, scoreBefore = currentScore (user_scores l u),
                 scoreDelta = d, scoreAfter = currentScore (user_scores l u) + d,
                 occurredAt = now\<rparr>,
            l\<lparr>score_history :=
                 score_history l
                 @ [\<lparr>tx_userId = u, tx_actionType = a, scoreBefore = currentScore (user_scores l u),
                     scoreDelta = d, scoreAfter = currentScore (user_scores l u) + d,
                     occurredAt = now\<rparr>],
               user_scores := (user_scores l)
                 (u := \<lparr>currentScore = currentScore (user_scores l u) + d,
                        lastActionAt = Some now\<rparr>)\<rparr>)"
  using assms by (simp add: commit_def Let_def)

text \<open>
  Claim C5. Whatever operations the store fails during a commit, the commit either
  fails as a whole, and the ledger after the call is the ledger before it, or performs
  all of its effects: the transaction with \<open>scoreAfter = scoreBefore + delta\<close> is appended
  to the history and the user's score state is updated to \<open>scoreAfter\<close>. It fails exactly
  when one of its operations fails.
\<close>

theorem commit_atomicity:
  "(fails LockRow \<or> fails AppendTransaction \<or> fails UpdateState \<or> fails CommitUnit \<longrightarrow>
      (\<exists>e. commit fails l u a d now = (Inl e, l)))
   \<and> (\<not> (fails LockRow \<or> fails AppendTransaction \<or> fails UpdateState \<or> fails CommitUnit) \<longrightarrow>
      commit fails l u a d now
      = (Inr \<lparr>tx_userId = u, tx_actionType = a, scoreBefore = currentScore (user_scores l u),
              scoreDelta = d, scoreAfter = currentScore (user_scores l u) + d,
              occurredAt = now\<rparr>,
         l\<lparr>score_history :=
              score_history l
              @ [\<lparr>tx_userId = u, tx_actionType = a, scoreBefore = currentScore (user_scores l u),
                  scoreDelta = d, scoreAfter = currentScore (user_scores l u) + d,
                  occurredAt = now\<rparr>],
            user_scores := (user_scores l)
              (u := \<lparr>currentScore = currentScore (user_scores l u) + d,
                     lastActionAt = Some now\<rparr>)\<rparr>))"
  using commit_failure [of fails l u a d now] commit_success [of fails l u a d now]
  by blast

theorem commit_atomicity_witness:
  "commit (\<lambda>s. s = UpdateState) initial_ledger ''user1'' ''COMPLETE_TASK'' 50 1000
     = (Inl STORE_UNAVAILABLE, initial_ledger)
   \<and> commit (\<lambda>s. s = CommitUnit) initial_ledger ''user1'' ''COMPLETE_TASK'' 50 1000
     = (Inl STORE_UNAVAILABLE, initial_ledger)
   \<and> currentScore
       (user_scores (snd (commit (\<lambda>s. False) initial_ledger ''user1'' ''COMPLETE_TASK'' 50 1000))
          ''user1'')
     = 50
   \<and> map scoreAfter
       (score_history (snd (commit (\<lambda>s. False) initial_ledger ''user1'' ''COMPLETE_TASK'' 50 1000)))
     = [50]"
proof -
  have a: "commit (\<lambda>s. s = UpdateState) initial_ledger ''user1'' ''COMPLETE_TASK'' 50 1000
     = (Inl STORE_UNAVAILABLE, initial_ledger)"
    using commit_atomicity [of "\<lambda>s. s = UpdateState" initial_ledger "''user1''"
        "''COMPLETE_TASK''" 50 1000]
    by (simp add: commit_def rollback_def Let_def)
  have b: "commit (\<lambda>s. s = CommitUnit) initial_ledger ''user1'' ''COMPLETE_TASK'' 50 1000
     = (Inl STORE_UNAVAILABLE, initial_ledger)"
    by (simp add: commit_def rollback_def Let_def)
  have c: "commit (\<lambda>s. False) initial_ledger ''user1'' ''COMPLETE_TASK'' 50 1000
     = (Inr \<lparr>tx_userId = ''user1'', tx_actionType = ''COMPLETE_TASK'', scoreBefore = 0,
             scoreDelta = 50, scoreAfter = 50, occurredAt = 1000\<rparr>,
        initial_ledger
          \<lparr>score_history :=
             [\<lparr>tx_userId = ''user1'', tx_actionType = ''COMPLETE_TASK'', scoreBefore = 0,
               scoreDelta = 50, scoreAfter = 50, occurredAt = 1000\<rparr>],
           user_scores := (user_scores initial_ledger)
             (''user1'' := \<lparr>currentScore = 50, lastActionAt = Some 1000\<rparr>)\<rparr>)"
    using commit_atomicity [of "\<lambda>s. False" initial_ledger "''user1''" "''COMPLETE_TASK''" 50 1000]
    by (simp add: initial_ledger_def)
  from a b c show ?thesis by simp
qed

lemma replay_snoc: "replay s (h @ [t]) = replay s h + scoreDelta t"
  by (simp add: replay_def)

lemma replay_Cons: "replay s (t # h) = replay (s + scoreDelta t) h"
  by (simp add: replay_def)

lemma chained_snoc:
  "chained s h \<Longrightarrow> scoreBefore t = replay s h \<Longrightarrow> scoreAfter t = scoreBefore t + scoreDelta t
   \<Longrightarrow> chained s (h @ [t])"
proof (induction h arbitrary: s)
  case Nil
  then show ?case by (simp add: replay_def)
next
  case (Cons x xs)
  from Cons.prems have c: "chained (s + scoreDelta x) xs" and x: "scoreBefore x = s"
    and y: "scoreAfter x = s + scoreDelta x"
    by auto
  from Cons.prems have b: "scoreBefore t = replay (s + scoreDelta x) xs"
    by (simp add: replay_Cons)
  from Cons.IH [OF c b Cons.prems(3)] x y show ?case by simp
qed

lemma chained_consecutive:
  "chained s h \<Longrightarrow> Suc k < length h \<Longrightarrow> scoreBefore (h ! Suc k) = scoreAfter (h ! k)"
proof (induction h arbitrary: s k)
  case Nil
  then show ?case by simp
next
  case (Cons x xs)
  show ?case
  proof (cases k)
    case 0
    with Cons.prems show ?thesis by (cases xs) simp_all
  next
    case (Suc j)
    from Cons.prems have c: "chained (scoreAfter x) xs" by auto
    from Cons.prems Suc have j: "Suc j < length xs" by simp
    from Cons.IH [OF c j] Suc show ?thesis by simp
  qed
qed

lemma chained_rows:
  "chained s h \<Longrightarrow> t \<in> set h \<Longrightarrow> scoreAfter t = scoreBefore t + scoreDelta t"
  by (induction h arbitrary: s) auto

lemma commit_keeps_consistency:
  assumes "chained 0 (user_history l v)"
    and "replay 0 (user_history l v) = currentScore (user_scores l v)"
  shows "chained 0 (user_history (snd (commit fails l u a d now)) v)
       \<and> replay 0 (user_history (snd (commit fails l u a d now)) v)
           = currentScore (user_scores (snd (commit fails l u a d now)) v)"
proof (cases "fails LockRow \<or> fails AppendTransaction \<or> fails UpdateState \<or> fails CommitUnit")
  case True
  from commit_failure [OF this, of l u a d now] assms show ?thesis by auto
next
  case False
  note ok = commit_success [OF False, of l u a d now]
  show ?thesis
  proof (cases "v = u")
    case True
    have "chained 0 (user_history l u
            @ [\<lparr>tx_userId = u, tx_actionType = a, scoreBefore = currentScore (user_scores l u),
                scoreDelta = d, scoreAfter = currentScore (user_scores l u) + d,
                occurredAt = now\<rparr>])"
      using assms True by (intro chained_snoc) simp_all
    with assms True show ?thesis
      by (simp add: ok user_history_def replay_snoc)
  next
    case False
    with assms show ?thesis by (simp add: ok user_history_def)
  qed
qed

lemma commits_keep_consistency:
  assumes "chained 0 (user_history l v)"
    and "replay 0 (user_history l v) = currentScore (user_scores l v)"
  shows "chained 0 (user_history (commits l attempts) v)
       \<and> replay 0 (user_history (commits l attempts) v)
           = currentScore (user_scores (commits l attempts) v)"
  using assms
proof (induction attempts arbitrary: l)
  case Nil
  then show ?case by simp
next
  case (Cons x rest)
  from commit_keeps_consistency [OF Cons.prems,
      of "failing x" "for_user x" "for_action x" "delta_of x" "at_time x"]
  show ?case by (simp add: Cons.IH)
qed

text \<open>
  Claim C2. In the ledger that any sequence of commit attempts, failed ones included,
  leaves from the initial ledger, the history of every user is chained from the score
  0: every transaction has \<open>scoreAfter = scoreBefore + scoreDelta\<close>, the \<open>scoreBefore\<close> of
  each transaction is the \<open>scoreAfter\<close> of the one before it in the user's commit order,
  and replaying the deltas in commit order gives the user's current score.
\<close>

theorem ledger_consistency:
  "chained 0 (user_history (commits initial_ledger attempts) u)
   \<and> (\<forall>t\<in>set (user_history (commits initial_ledger attempts) u).
         scoreAfter t = scoreBefore t + scoreDelta t)
   \<and> (\<forall>k. Suc k < length (user_history (commits initial_ledger attempts) u) \<longrightarrow>
         scoreBefore (user_history (commits initial_ledger attempts) u ! Suc k)
         = scoreAfter (user_history (commits initial_ledger attempts) u ! k))
   \<and> replay 0 (user_history (commits initial_ledger attempts) u)
       = currentScore (user_scores (commits initial_ledger attempts) u)"
proof -
  have c0: "chained 0 (user_history initial_ledger u)"
    and r0: "replay 0 (user_history initial_ledger u) = currentScore (user_scores initial_ledger u)"
    by (simp_all add: initial_ledger_def user_history_def replay_def)
  from commits_keep_consistency [OF c0 r0, of attempts]
  have c: "chained 0 (user_history (commits initial_ledger attempts) u)"
    and r: "replay 0 (user_history (commits initial_ledger attempts) u)
           = currentScore (user_scores (commits initial_ledger attempts) u)"
    by simp_all
  from c have rows: "\<forall>t\<in>set (user_history (commits initial_ledger attempts) u).
         scoreAfter t = scoreBefore t + scoreDelta t"
    by (auto dest: chained_rows)
  from c have cons: "\<forall>k. Suc k < length (user_history (commits initial_ledger attempts) u) \<longrightarrow>
         scoreBefore (user_history (commits initial_ledger attempts) u ! Suc k)
         = scoreAfter (user_history (commits initial_ledger attempts) u ! k)"
    by (auto dest: chained_consecutive)
  from c rows cons r show ?thesis by (intro conjI)
qed

theorem ledger_consistency_witness:
  "user_history (commits initial_ledger example_attempts) ''user1''
     = [\<lparr>tx_userId = ''user1'', tx_actionType = ''COMPLETE_TASK'', scoreBefore = 0,
          scoreDelta = 50, scoreAfter = 50, occurredAt = 1000\<rparr>,
        \<lparr>tx_userId = ''user1'', tx_actionType = ''COMPLETE_TASK'', scoreBefore = 50,
          scoreDelta = 20, scoreAfter = 70, occurredAt = 4000\<rparr>]
   \<and> Suc 0 < length (user_history (commits initial_ledger example_attempts) ''user1'')
   \<and> scoreBefore (user_history (commits initial_ledger example_attempts) ''user1'' ! Suc 0)
       = scoreAfter (user_history (commits initial_ledger example_attempts) ''user1'' ! 0)
   \<and> scoreAfter (user_history (commits initial_ledger example_attempts) ''user1'' ! Suc 0)
       = scoreBefore (user_history (commits initial_ledger example_attempts) ''user1'' ! Suc 0)
         + scoreDelta (user_history (commits initial_ledger example_attempts) ''user1'' ! Suc 0)
   \<and> replay 0 (user_history (commits initial_ledger example_attempts) ''user1'')
       = currentScore (user_scores (commits initial_ledger example_attempts) ''user1'')
   \<and> currentScore (user_scores (commits initial_ledger example_attempts) ''user1'') = 70"
proof -
  have l: "commits initial_ledger example_attempts
     = \<lparr>user_scores = (\<lambda>u. \<lparr>currentScore = 0, lastActionAt = None\<rparr>)
           (''user1'' := \<lparr>currentScore = 70, lastActionAt = Some 4000\<rparr>,
            ''user2'' := \<lparr>currentScore = 10, lastActionAt = Some 3000\<rparr>),
        score_history =
          [\<lparr>tx_userId = ''user1'', tx_actionType = ''COMPLETE_TASK'', scoreBefore = 0,
             scoreDelta = 50, scoreAfter = 50, occurredAt = 1000\<rparr>,
           \<lparr>tx_userId = ''user2'', tx_actionType = ''COMPLETE_TASK'', scoreBefore = 0,
             scoreDelta = 10, scoreAfter = 10, occurredAt = 3000\<rparr>,
           \<lparr>tx_userId = ''user1'', tx_actionType = ''COMPLETE_TASK'', scoreBefore = 50,
             scoreDelta = 20, scoreAfter = 70, occurredAt = 4000\<rparr>]\<rparr>"
    by (simp add: example_attempts_def initial_ledger_def commit_def rollback_def Let_def
        fun_upd_twist)
  have h: "user_history (commits initial_ledger example_attempts) ''user1''
     = [\<lparr>tx_userId = ''user1'', tx_actionType = ''COMPLETE_TASK'', scoreBefore = 0,
          scoreDelta = 50, scoreAfter = 50, occurredAt = 1000\<rparr>,
        \<lparr>tx_userId = ''user1'', tx_actionType = ''COMPLETE_TASK'', scoreBefore = 50,
          scoreDelta = 20, scoreAfter = 70, occurredAt = 4000\<rparr>]"
    by (simp add: l user_history_def)
  have c: "currentScore (user_scores (commits initial_ledger example_attempts) ''user1'') = 70"
    by (simp add: l)
  have n: "Suc 0 < length (user_history (commits initial_ledger example_attempts) ''user1'')"
    by (simp add: h)
  note inst = ledger_consistency [of example_attempts "''user1''"]
  from inst have rows: "\<forall>t\<in>set (user_history (commits initial_ledger example_attempts) ''user1'').
         scoreAfter t = scoreBefore t + scoreDelta t"
    by (elim conjE)
  from inst have cons: "\<forall>k. Suc k < length (user_history (commits initial_ledger example_attempts) ''user1'') \<longrightarrow>
         scoreBefore (user_history (commits initial_ledger example_attempts) ''user1'' ! Suc k)
         = scoreAfter (user_history (commits initial_ledger example_attempts) ''user1'' ! k)"
    by (elim conjE)
  from inst have r: "replay 0 (user_history (commits initial_ledger example_attempts) ''user1'')
       = currentScore (user_scores (commits initial_ledger example_attempts) ''user1'')"
    by (elim conjE)
  from n have "user_history (commits initial_ledger example_attempts) ''user1'' ! Suc 0
      \<in> set (user_history (commits initial_ledger example_attempts) ''user1'')"
    by (rule nth_mem)
  with rows
  have row: "scoreAfter (user_history (commits initial_ledger example_attempts) ''user1'' ! Suc 0)
       = scoreBefore (user_history (commits initial_ledger example_attempts) ''user1'' ! Suc 0)
         + scoreDelta (user_history (commits initial_ledger example_attempts) ''user1'' ! Suc 0)"
    by (rule bspec)
  from cons [rule_format, OF n] h n row r c show ?thesis by (intro conjI)
qed

section \<open>Problem 6: the order of the stages\<close>



end
